theory Spec2Isabelle
  imports Main "HOL-Library.AList"
begin

section \<open>Python values\<close>

text \<open>
  The program is one Python module, \<open>hw_12_ph_book.py\<close>. A Python \<open>str\<close> is a sequence
  of code points; it is modelled as a \<open>string\<close> whose characters are the code points
  U+0000 .. U+00FF. An exception is a value of \<open>error\<close> carrying the message the source
  gives it; a method that can raise returns \<open>error + 'a\<close>, and a method that mutates its
  object returns the object with it, since a raise in the middle of a method keeps the
  mutations made before it.
\<close>

datatype error = ValueError string | KeyError string

text \<open>
  \<open>str.isdecimal\<close> and \<open>str.isdigit\<close> on one code point below U+0100: the decimal digits
  are \<open>0\<close> .. \<open>9\<close>; \<open>isdigit\<close> accepts, besides them, the superscript digits U+00B2,
  U+00B3 and U+00B9. \<open>str.isdigit\<close> is false on the empty string.
\<close>

definition isdecimal_char :: "char \<Rightarrow> bool" where
  "isdecimal_char c \<longleftrightarrow> 48 \<le> (of_char c :: nat) \<and> (of_char c :: nat) \<le> 57"

definition isdigit_char :: "char \<Rightarrow> bool" where
  "isdigit_char c \<longleftrightarrow>
     isdecimal_char c \<or> (of_char c :: nat) = 178 \<or> (of_char c :: nat) = 179
       \<or> (of_char c :: nat) = 185"

definition str_isdigit :: "string \<Rightarrow> bool" where
  "str_isdigit s \<longleftrightarrow> s \<noteq> [] \<and> list_all isdigit_char s"

section \<open>Calendar dates\<close>

text \<open>
  A \<open>datetime.date\<close> has a year in 1 .. 9999, a month and a day of that month. The record
  holds the three numbers; \<open>valid_date\<close> says that they name a date, and \<open>mk_date\<close> is the
  constructor, which raises \<open>ValueError\<close> otherwise.
\<close>

record date =
  year :: nat
  month :: nat
  day :: nat

definition is_leap :: "nat \<Rightarrow> bool" where
  "is_leap y \<longleftrightarrow> y mod 4 = 0 \<and> (y mod 400 = 0 \<or> y mod 100 \<noteq> 0)"

definition days_in_month :: "nat \<Rightarrow> nat \<Rightarrow> nat" where
  "days_in_month y m =
     (if m = 2 then (if is_leap y then 29 else 28)
      else if m = 4 \<or> m = 6 \<or> m = 9 \<or> m = 11 then 30 else 31)"

definition valid_date :: "nat \<Rightarrow> nat \<Rightarrow> nat \<Rightarrow> bool" where
  "valid_date y m d \<longleftrightarrow>
     1 \<le> y \<and> y \<le> 9999 \<and> 1 \<le> m \<and> m \<le> 12 \<and> 1 \<le> d \<and> d \<le> days_in_month y m"

text \<open>The decimal digits of a number (\<open>%i\<close>), and a string padded with zeros on the left.\<close>

fun dec :: "nat \<Rightarrow> string" where
  "dec n = (if n < 10 then [char_of (48 + n)] else dec (n div 10) @ [char_of (48 + n mod 10)])"

declare dec.simps [simp del]

definition zfill :: "nat \<Rightarrow> string \<Rightarrow> string" where
  "zfill w s = replicate (w - length s) (CHR ''0'') @ s"

definition mk_date :: "nat \<Rightarrow> nat \<Rightarrow> nat \<Rightarrow> error + date" where
  "mk_date y m d =
     (if y < 1 \<or> 9999 < y then Inl (ValueError (''year '' @ dec y @ '' is out of range''))
      else if m < 1 \<or> 12 < m then Inl (ValueError ''month must be in 1..12'')
      else if d < 1 \<or> days_in_month y m < d then Inl (ValueError ''day is out of range for month'')
      else Inr \<lparr>year = y, month = m, day = d\<rparr>)"

text \<open>\<open>d.replace(year=y)\<close> builds a new date, with the constructor's checks.\<close>

definition replace_year :: "date \<Rightarrow> nat \<Rightarrow> error + date" where
  "replace_year d y = mk_date y (month d) (day d)"

text \<open>\<open>a < b\<close> on dates compares year, month and day in this order.\<close>

definition date_less :: "date \<Rightarrow> date \<Rightarrow> bool" where
  "date_less a b \<longleftrightarrow>
     year a < year b \<or> (year a = year b \<and> (month a < month b \<or> (month a = month b \<and> day a < day b)))"

text \<open>
  \<open>(a - b).days\<close> is the difference of the proleptic Gregorian ordinals, where 0001-01-01
  has ordinal 1.
\<close>

definition days_before_year :: "nat \<Rightarrow> int" where
  "days_before_year y = (let k = int y - 1 in k * 365 + k div 4 - k div 100 + k div 400)"

definition days_before_month :: "nat \<Rightarrow> nat \<Rightarrow> nat" where
  "days_before_month y m = sum_list (map (days_in_month y) [1..<m])"

definition toordinal :: "date \<Rightarrow> int" where
  "toordinal d = days_before_year (year d) + int (days_before_month (year d) (month d)) + int (day d)"

definition days_between :: "date \<Rightarrow> date \<Rightarrow> int" where
  "days_between a b = toordinal a - toordinal b"

text \<open>
  \<open>strftime('%Y-%m-%d')\<close> is the C library's: \<open>%Y\<close> writes the digits of the year
  with no padding (\<open>999-01-01\<close> for the first day of the year 999), \<open>%m\<close> and \<open>%d\<close>
  write two digits, zero padded. \<open>strptime(s, '%Y-%m-%d')\<close> reads a year of exactly
  four digits, a month and a day of one or two digits, separated by \<open>-\<close>, and builds
  the date, raising \<open>ValueError\<close> when the text has another shape or the numbers name
  no date. So the text that \<open>strftime\<close> writes for a date before the year 1000 is one
  that \<open>strptime\<close> refuses. The program only tests whether \<open>strptime\<close> raises; the
  message of its \<open>ValueError\<close> is not observed.
\<close>

definition strftime_ymd :: "date \<Rightarrow> string" where
  "strftime_ymd d =
     dec (year d) @ ''-'' @ zfill 2 (dec (month d)) @ ''-'' @ zfill 2 (dec (day d))"

fun split_dash :: "string \<Rightarrow> string list" where
  "split_dash [] = [[]]"
| "split_dash (c # cs) =
     (if c = CHR ''-'' then [] # split_dash cs
      else (case split_dash cs of [] \<Rightarrow> [[c]] | w # ws \<Rightarrow> (c # w) # ws))"

definition parse_nat :: "string \<Rightarrow> nat option" where
  "parse_nat s =
     (if s \<noteq> [] \<and> list_all isdecimal_char s
      then Some (foldl (\<lambda>a c. a * 10 + (of_char c - 48)) 0 s) else None)"

definition strptime_ymd :: "string \<Rightarrow> error + date" where
  "strptime_ymd s =
     (case split_dash s of
        [ys, ms, ds] \<Rightarrow>
          (if length ys = 4 \<and> 1 \<le> length ms \<and> length ms \<le> 2 \<and> 1 \<le> length ds \<and> length ds \<le> 2
           then (case (parse_nat ys, parse_nat ms, parse_nat ds) of
                   (Some y, Some m, Some d) \<Rightarrow> mk_date y m d
                 | _ \<Rightarrow> Inl (ValueError ''time data does not match format''))
           else Inl (ValueError ''time data does not match format''))
      | _ \<Rightarrow> Inl (ValueError ''time data does not match format''))"

section \<open>Fields\<close>

text \<open>
  \<open>Field\<close> holds one attribute, \<open>_value\<close>. \<open>Name\<close>, \<open>Phone\<close> and \<open>Birthday\<close> are its
  subclasses: \<open>Name\<close> inherits \<open>set_value\<close>, a plain assignment; \<open>Phone\<close> and \<open>Birthday\<close>
  override it with a validation before the assignment. \<open>__init__\<close> calls \<open>set_value\<close>,
  so a constructor raises what \<open>set_value\<close> raises, and then no object exists.
\<close>

datatype 'a Field = Field (get_value: 'a)

type_synonym Name = "string Field"
type_synonym Phone = "string Field"
type_synonym Birthday = "date Field"

definition set_value :: "'a Field \<Rightarrow> 'a \<Rightarrow> 'a Field" where
  "set_value f v = Field v"

definition Name_init :: "string \<Rightarrow> Name" where
  "Name_init v = Field v"

text \<open>
  \<open>validate_phone\<close>: the argument is a \<open>str\<close> here, so of the two tests
  \<open>not isinstance(phone, str) or not phone.isdigit()\<close> the second decides.
\<close>

definition validate_phone :: "string \<Rightarrow> bool" where
  "validate_phone phone = (if \<not> str_isdigit phone then False else True)"

definition Phone_set_value :: "Phone \<Rightarrow> string \<Rightarrow> (error + unit) \<times> Phone" where
  "Phone_set_value f v =
     (if \<not> validate_phone v then (Inl (ValueError ''Invalid phone number''), f)
      else (Inr (), Field v))"

definition Phone_init :: "string \<Rightarrow> error + Phone" where
  "Phone_init v =
     (if \<not> validate_phone v then Inl (ValueError ''Invalid phone number'') else Inr (Field v))"

definition validate_birthday :: "date \<Rightarrow> bool" where
  "validate_birthday b = (case strptime_ymd (strftime_ymd b) of Inl e \<Rightarrow> False | Inr d \<Rightarrow> True)"

definition Birthday_set_value :: "Birthday \<Rightarrow> date \<Rightarrow> (error + unit) \<times> Birthday" where
  "Birthday_set_value f v =
     (if \<not> validate_birthday v then (Inl (ValueError ''Invalid birthday''), f)
      else (Inr (), Field v))"

definition Birthday_init :: "date \<Rightarrow> error + Birthday" where
  "Birthday_init v =
     (if \<not> validate_birthday v then Inl (ValueError ''Invalid birthday'') else Inr (Field v))"

definition get_month :: "Birthday \<Rightarrow> nat" where
  "get_month f = month (get_value f)"

definition get_day :: "Birthday \<Rightarrow> nat" where
  "get_day f = day (get_value f)"

section \<open>Records\<close>

record Record =
  name :: Name
  phones :: "Phone list"
  birthday :: "Birthday option"

text \<open>The argument of \<open>add_phone\<close>: a \<open>str\<close>, a \<open>Phone\<close>, or a value of another type.\<close>

datatype phone_arg = StrArg string | PhoneArg Phone | OtherArg

definition add_phone :: "Record \<Rightarrow> phone_arg \<Rightarrow> (error + unit) \<times> Record" where
  "add_phone r phone =
     (case phone of
        StrArg s \<Rightarrow>
          (case Phone_init s of
             Inl e \<Rightarrow> (Inl e, r)
           | Inr p \<Rightarrow> (Inr (), r\<lparr>phones := phones r @ [p]\<rparr>))
      | PhoneArg p \<Rightarrow> (Inr (), r\<lparr>phones := phones r @ [p]\<rparr>)
      | OtherArg \<Rightarrow> (Inl (ValueError ''Invalid phone type''), r))"

text \<open>
  \<open>Record.__init__\<close>: the name, an empty phone list, the birthday when one is given
  (a \<open>date\<close> is always truthy), then the phone when it is a non-empty string.
\<close>

definition Record_init :: "string \<Rightarrow> string option \<Rightarrow> date option \<Rightarrow> error + Record" where
  "Record_init nm phone bd =
     (case (case bd of None \<Rightarrow> Inr None
                     | Some d \<Rightarrow> (case Birthday_init d of Inl e \<Rightarrow> Inl e | Inr f \<Rightarrow> Inr (Some f))) of
        Inl e \<Rightarrow> Inl e
      | Inr b \<Rightarrow>
          (let r = \<lparr>name = Name_init nm, phones = [], birthday = b\<rparr> in
           (case phone of
              None \<Rightarrow> Inr r
            | Some s \<Rightarrow>
                if s = [] then Inr r
                else (case add_phone r (StrArg s) of (Inl e, r') \<Rightarrow> Inl e | (Inr u, r') \<Rightarrow> Inr r'))))"

text \<open>\<open>get_index_by_phone\<close>: the index of the first phone with this value.\<close>

fun index_of_phone :: "Phone list \<Rightarrow> string \<Rightarrow> nat \<Rightarrow> nat option" where
  "index_of_phone [] phone inx = None"
| "index_of_phone (p # ps) phone inx =
     (if get_value p = phone then Some inx else index_of_phone ps phone (Suc inx))"

definition get_index_by_phone :: "Record \<Rightarrow> string \<Rightarrow> nat option" where
  "get_index_by_phone r phone = index_of_phone (phones r) phone 0"

definition remove_phone :: "Record \<Rightarrow> string \<Rightarrow> (error + string) \<times> Record" where
  "remove_phone r phone =
     (case get_index_by_phone r phone of
        None \<Rightarrow> (Inl (ValueError (''The phone not found '' @ phone)), r)
      | Some inx \<Rightarrow>
          (Inr (''The phone deleted '' @ phone),
           r\<lparr>phones := take inx (phones r) @ drop (Suc inx) (phones r)\<rparr>))"

text \<open>
  \<open>edit_phone\<close>: the loop stops at the first phone with the old value and sets it; a
  raise of \<open>set_value\<close> leaves the list as it was.
\<close>

fun edit_phone_loop :: "Phone list \<Rightarrow> string \<Rightarrow> string \<Rightarrow> (error + unit) \<times> Phone list" where
  "edit_phone_loop [] old_phone new_phone = (Inr (), [])"
| "edit_phone_loop (p # ps) old_phone new_phone =
     (if get_value p = old_phone
      then (case Phone_set_value p new_phone of (res, p') \<Rightarrow> (res, p' # ps))
      else (case edit_phone_loop ps old_phone new_phone of (res, ps') \<Rightarrow> (res, p # ps')))"

definition edit_phone :: "Record \<Rightarrow> string \<Rightarrow> string \<Rightarrow> (error + unit) \<times> Record" where
  "edit_phone r old_phone new_phone =
     (case edit_phone_loop (phones r) old_phone new_phone of (res, ps) \<Rightarrow> (res, r\<lparr>phones := ps\<rparr>))"

text \<open>
  \<open>days_to_birthday\<close>. \<open>datetime.now().date()\<close> is the parameter \<open>today\<close>. The result is
  \<open>None\<close> without a birthday; with one, the two date constructions can raise.
\<close>

definition days_to_birthday :: "date \<Rightarrow> Record \<Rightarrow> error + int option" where
  "days_to_birthday today r =
     (case birthday r of
        None \<Rightarrow> Inr None
      | Some b \<Rightarrow>
          (case mk_date (year today) (get_month b) (get_day b) of
             Inl e \<Rightarrow> Inl e
           | Inr next_birthday \<Rightarrow>
               if date_less next_birthday today
               then (case replace_year next_birthday (year today + 1) of
                       Inl e \<Rightarrow> Inl e
                     | Inr next_birthday' \<Rightarrow> Inr (Some (days_between next_birthday' today)))
               else Inr (Some (days_between next_birthday today))))"

section \<open>The address book\<close>

text \<open>
  \<open>AddressBook\<close> is a \<open>UserDict\<close>: \<open>data\<close> is a Python dict, which keeps its keys in
  insertion order, modelled as an association list with distinct keys. \<open>data[k] = v\<close>
  is \<open>AList.update\<close> (the value is replaced in place, or the entry appended),
  \<open>del data[k]\<close> is \<open>AList.delete\<close>, \<open>data[k]\<close> is \<open>map_of\<close>. \<open>iter_index\<close> and
  \<open>iter_keys\<close> are the attributes \<open>_index\<close> and \<open>_keys\<close>, which the iteration methods
  store on the book itself.

  The dict holds references to its records: a method that mutates a record it has
  looked up changes the record the dict holds, which the model writes back under the
  same key.
\<close>

record AddressBook =
  data :: "(string \<times> Record) list"
  iter_index :: nat
  iter_keys :: "string list"

definition empty_book :: AddressBook where
  "empty_book = \<lparr>data = [], iter_index = 0, iter_keys = []\<rparr>"

definition dict_invar :: "AddressBook \<Rightarrow> bool" where
  "dict_invar b \<longleftrightarrow> distinct (map fst (data b))"

text \<open>The loop \<open>for phone in phones: record.add_phone(phone)\<close> over a list of strings.\<close>

fun add_phone_each :: "Record \<Rightarrow> string list \<Rightarrow> (error + unit) \<times> Record" where
  "add_phone_each r [] = (Inr (), r)"
| "add_phone_each r (phone # rest) =
     (case add_phone r (StrArg phone) of
        (Inl e, r') \<Rightarrow> (Inl e, r')
      | (Inr u, r') \<Rightarrow> add_phone_each r' rest)"

definition add_record ::
  "string \<Rightarrow> string list option \<Rightarrow> date option \<Rightarrow> AddressBook \<Rightarrow> (error + unit) \<times> AddressBook" where
  "add_record nm phs bd b =
     (case Record_init nm None bd of
        Inl e \<Rightarrow> (Inl e, b)
      | Inr r \<Rightarrow>
          (case phs of
             None \<Rightarrow> (Inr (), b\<lparr>data := AList.update nm r (data b)\<rparr>)
           | Some ps \<Rightarrow>
               if ps = [] then (Inr (), b\<lparr>data := AList.update nm r (data b)\<rparr>)
               else (case add_phone_each r ps of
                       (Inl e, r') \<Rightarrow> (Inl e, b)
                     | (Inr u, r') \<Rightarrow> (Inr (), b\<lparr>data := AList.update nm r' (data b)\<rparr>))))"

definition delete_record :: "string \<Rightarrow> AddressBook \<Rightarrow> (error + unit) \<times> AddressBook" where
  "delete_record nm b =
     (case map_of (data b) nm of
        None \<Rightarrow> (Inl (KeyError nm), b)
      | Some r \<Rightarrow> (Inr (), b\<lparr>data := AList.delete nm (data b)\<rparr>))"

text \<open>
  \<open>edit_record\<close> returns a message when the name is not a key, and \<open>None\<close> otherwise;
  its result is \<open>string option\<close>. An empty \<open>new_name\<close> and an empty \<open>new_phones\<close> are
  falsy, as \<open>None\<close> is. The record is mutated in place: the name first, then the phone
  list is emptied and refilled, so a raise of \<open>add_phone\<close> keeps what was done before it.
\<close>

definition edit_record ::
  "string \<Rightarrow> string option \<Rightarrow> string list option \<Rightarrow> AddressBook
     \<Rightarrow> (error + string option) \<times> AddressBook" where
  "edit_record nm new_name new_phones b =
     (case map_of (data b) nm of
        None \<Rightarrow> (Inr (Some (nm @ '' Name not found '')), b)
      | Some r \<Rightarrow>
          (let r1 = (case new_name of
                       None \<Rightarrow> r
                     | Some s \<Rightarrow> if s = [] then r else r\<lparr>name := set_value (name r) s\<rparr>)
           in (case new_phones of
                 None \<Rightarrow> (Inr None, b\<lparr>data := AList.update nm r1 (data b)\<rparr>)
               | Some ps \<Rightarrow>
                   if ps = [] then (Inr None, b\<lparr>data := AList.update nm r1 (data b)\<rparr>)
                   else (case add_phone_each (r1\<lparr>phones := []\<rparr>) ps of
                           (Inl e, r2) \<Rightarrow> (Inl e, b\<lparr>data := AList.update nm r2 (data b)\<rparr>)
                         | (Inr u, r2) \<Rightarrow> (Inr None, b\<lparr>data := AList.update nm r2 (data b)\<rparr>)))))"

definition find_records_by_name :: "string \<Rightarrow> AddressBook \<Rightarrow> Record list" where
  "find_records_by_name nm b = filter (\<lambda>r. get_value (name r) = nm) (map snd (data b))"

definition find_records_by_phone :: "string \<Rightarrow> AddressBook \<Rightarrow> Record list" where
  "find_records_by_phone phone b =
     filter (\<lambda>r. list_ex (\<lambda>p. get_value p = phone) (phones r)) (map snd (data b))"

subsection \<open>The generator \<open>iterator\<close>\<close>

text \<open>
  \<open>iterator(page_size)\<close> is a generator function: the call runs nothing and returns a
  generator, whose frame holds \<open>page_size\<close> and the place where it is suspended. Each
  \<open>next\<close> runs the body to the next \<open>yield\<close> or to its end (\<open>StopIteration\<close>, the result
  \<open>None\<close> here), reading and writing \<open>_index\<close> and \<open>_keys\<close> on the book.
\<close>

datatype gen_pc = Created | AtYield | Finished

record generator =
  page_size :: int
  pc :: gen_pc

definition iterator :: "int \<Rightarrow> generator" where
  "iterator n = \<lparr>page_size = n, pc = Created\<rparr>"

definition loop_head :: "generator \<Rightarrow> AddressBook \<Rightarrow> (error + Record option) \<times> generator \<times> AddressBook" where
  "loop_head g b =
     (if iter_index b < length (iter_keys b)
      then (case map_of (data b) (iter_keys b ! iter_index b) of
              None \<Rightarrow> (Inl (KeyError (iter_keys b ! iter_index b)), g\<lparr>pc := Finished\<rparr>, b)
            | Some r \<Rightarrow> (Inr (Some r), g\<lparr>pc := AtYield\<rparr>, b))
      else (Inr None, g\<lparr>pc := Finished\<rparr>, b))"

definition gen_next :: "generator \<Rightarrow> AddressBook \<Rightarrow> (error + Record option) \<times> generator \<times> AddressBook" where
  "gen_next g b =
     (case pc g of
        Created \<Rightarrow> loop_head g (b\<lparr>iter_index := 0, iter_keys := map fst (data b)\<rparr>)
      | AtYield \<Rightarrow> loop_head g (b\<lparr>iter_index := iter_index b + 1\<rparr>)
      | Finished \<Rightarrow> (Inr None, g, b))"

text \<open>What is left to yield; it decreases at every \<open>next\<close> that yields.\<close>

definition gen_left :: "generator \<times> AddressBook \<Rightarrow> nat" where
  "gen_left = (\<lambda>(g, b).
     (case pc g of
        Created \<Rightarrow> length (data b) + 1
      | AtYield \<Rightarrow> length (iter_keys b) - iter_index b
      | Finished \<Rightarrow> 0))"

text \<open>\<open>list(gen)\<close>: the generator consumed to its end.\<close>

function consume :: "generator \<Rightarrow> AddressBook \<Rightarrow> (error + Record list) \<times> AddressBook" where
  "consume g b =
     (case gen_next g b of
        (Inl e, g', b') \<Rightarrow> (Inl e, b')
      | (Inr None, g', b') \<Rightarrow> (Inr [], b')
      | (Inr (Some r), g', b') \<Rightarrow>
          (case consume g' b' of
             (Inl e, b'') \<Rightarrow> (Inl e, b'')
           | (Inr rs, b'') \<Rightarrow> (Inr (r # rs), b'')))"
  by pat_completeness auto
termination
proof (relation "measure gen_left")
  show "wf (measure gen_left)" by simp
next
  fix g b x21 y x22 g' b' yo r
  assume "(x21, y) = gen_next g b" "(g', b') = y" "x21 = Inr yo" "yo = Some r"
  then have "gen_next g b = (Inr (Some r), g', b')" by simp
  then show "((g', b'), (g, b)) \<in> measure gen_left"
    by (cases "pc g")
       (auto simp: gen_next_def loop_head_def gen_left_def split: if_splits option.splits)
qed

declare consume.simps [simp del]

subsection \<open>Persistence\<close>

text \<open>
  \<open>pickle\<close> is not part of the program: \<open>dumps\<close> and \<open>loads\<close> are parameters, the
  serialisation of a dict and its inverse, which can raise. The file store maps a file
  name to its content. \<open>save_to_file\<close> opens the file for writing, which creates or
  truncates it, and dumps \<open>self.data\<close>; \<open>load_from_file\<close> replaces \<open>self.data\<close>, or
  prints a notice when there is no such file. The last component of its result is
  what it printed.
\<close>

definition save_to_file ::
  "((string \<times> Record) list \<Rightarrow> 'bytes) \<Rightarrow> string \<Rightarrow> AddressBook \<Rightarrow> (string \<rightharpoonup> 'bytes)
     \<Rightarrow> (string \<rightharpoonup> 'bytes)" where
  "save_to_file dumps filename b fs = fs(filename \<mapsto> dumps (data b))"

definition load_from_file ::
  "('bytes \<Rightarrow> error + (string \<times> Record) list) \<Rightarrow> string \<Rightarrow> AddressBook \<Rightarrow> (string \<rightharpoonup> 'bytes)
     \<Rightarrow> (error + unit) \<times> AddressBook \<times> string list" where
  "load_from_file loads filename b fs =
     (case fs filename of
        None \<Rightarrow> (Inr (), b, [''File not found. Starting with an empty address book.''])
      | Some content \<Rightarrow>
          (case loads content of
             Inl e \<Rightarrow> (Inl e, b, [])
           | Inr d \<Rightarrow> (Inr (), b\<lparr>data := d\<rparr>, [])))"

section \<open>Example values\<close>

definition ann :: Record where
  "ann = \<lparr>name = Field ''Ann'', phones = [Field ''12345''],
           birthday = Some (Field \<lparr>year = 1990, month = 5, day = 1\<rparr>)\<rparr>"

definition bob :: Record where
  "bob = \<lparr>name = Field ''Bob'', phones = [Field ''111'', Field ''222''], birthday = None\<rparr>"

definition two_book :: AddressBook where
  "two_book = \<lparr>data = [(''Ann'', ann), (''Bob'', bob)], iter_index = 0, iter_keys = []\<rparr>"

definition leap_child :: Record where
  "leap_child = \<lparr>name = Field ''Leap'', phones = [],
                  birthday = Some (Field \<lparr>year = 2000, month = 2, day = 29\<rparr>)\<rparr>"

section \<open>Properties of the validated fields\<close>

lemma str_isdigit_decimal: "s \<noteq> [] \<Longrightarrow> list_all isdecimal_char s \<Longrightarrow> str_isdigit s"
  by (induction s) (auto simp: str_isdigit_def isdigit_char_def list_all_iff)

text \<open>
  C2, as the code has it. A non-empty string of decimal digits makes a \<open>Phone\<close> whose
  \<open>get_value\<close> is the string, and so does every non-empty string of characters that
  \<open>str.isdigit\<close> accepts; the empty string and a string with a character that
  \<open>str.isdigit\<close> rejects raise \<open>ValueError\<close>. The validation is \<open>str.isdigit\<close>, which
  accepts digits that are not decimal digits.
\<close>

theorem Phone_init_accepts_isdigit:
  "(s \<noteq> [] \<and> list_all isdecimal_char s \<longrightarrow>
      (\<exists>p. Phone_init s = Inr p \<and> get_value p = s)) \<and>
   (s \<noteq> [] \<and> list_all isdigit_char s \<longrightarrow>
      (\<exists>p. Phone_init s = Inr p \<and> get_value p = s)) \<and>
   (s = [] \<or> list_ex (\<lambda>c. \<not> isdigit_char c) s \<longrightarrow>
      Phone_init s = Inl (ValueError ''Invalid phone number''))"
proof -
  have "list_ex (\<lambda>c. \<not> isdigit_char c) s \<longleftrightarrow> \<not> list_all isdigit_char s"
    by (simp add: list_ex_iff list_all_iff)
  then show ?thesis
    using str_isdigit_decimal [of s]
    by (auto simp: Phone_init_def validate_phone_def str_isdigit_def)
qed

theorem Phone_init_accepts_isdigit_witness:
  "Phone_init ''12345'' = Inr (Field ''12345'') \<and>
   Phone_init [CHR 0xB2, CHR ''7''] = Inr (Field [CHR 0xB2, CHR ''7'']) \<and>
   Phone_init ''12a'' = Inl (ValueError ''Invalid phone number'') \<and>
   Phone_init [] = Inl (ValueError ''Invalid phone number'')"
  using Phone_init_accepts_isdigit [of "''12345''"]
    Phone_init_accepts_isdigit [of "[CHR 0xB2, CHR ''7'']"]
    Phone_init_accepts_isdigit [of "''12a''"]
    Phone_init_accepts_isdigit [of "[]"]
  by (simp add: isdecimal_char_def isdigit_char_def Phone_init_def validate_phone_def
      str_isdigit_def)

text \<open>
  C2 as the spec states it fails: the one-character string U+00B2 (superscript two)
  holds a character that is not a decimal digit, and the construction succeeds.
\<close>

theorem Phone_init_superscript_counterexample:
  "\<not> isdecimal_char (CHR 0xB2) \<and> Phone_init [CHR 0xB2] = Inr (Field [CHR 0xB2])"
  by (simp add: isdecimal_char_def isdigit_char_def Phone_init_def validate_phone_def
      str_isdigit_def)

text \<open>
  What \<open>validate_birthday\<close> decides on a date: the text that \<open>strftime\<close> writes has
  three parts, the digits of the year and two digits each for the month and the day,
  and \<open>strptime\<close> reads the date back from it exactly when the year has four digits.
  So the dates that fail the validation are the dates before the year 1000.
\<close>

lemma isdecimal_digit: "k < 10 \<Longrightarrow> isdecimal_char (char_of (48 + k))" for k :: nat
  by (simp add: isdecimal_char_def)

lemma dec_decimal: "list_all isdecimal_char (dec n)"
proof (induction n rule: dec.induct)
  case (1 n)
  show ?case
  proof (cases "n < 10")
    case True
    then show ?thesis by (subst dec.simps) (simp add: isdecimal_digit)
  next
    case False
    with "1" show ?thesis by (subst dec.simps) (simp add: isdecimal_digit)
  qed
qed

lemma dec_nonempty: "dec n \<noteq> []"
  by (subst dec.simps) simp

lemma length_dec:
  "n < 10 \<Longrightarrow> length (dec n) = 1"
  "10 \<le> n \<Longrightarrow> length (dec n) = Suc (length (dec (n div 10)))"
  by (subst dec.simps, simp)+

lemma length_dec_4: "1 \<le> n \<Longrightarrow> n \<le> 9999 \<Longrightarrow> length (dec n) = 4 \<longleftrightarrow> 1000 \<le> n"
proof -
  assume n: "1 \<le> n" "n \<le> 9999"
  consider "n < 10" | "10 \<le> n" "n < 100" | "100 \<le> n" "n < 1000" | "1000 \<le> n"
    by linarith
  then show ?thesis
  proof cases
    case 1
    then show ?thesis by (simp add: length_dec)
  next
    case 2
    then have "n div 10 < 10" by simp
    with 2 show ?thesis by (simp add: length_dec)
  next
    case 3
    then have "10 \<le> n div 10" "n div 10 < 100" "n div 10 div 10 < 10" by simp_all
    with 3 show ?thesis by (simp add: length_dec)
  next
    case 4
    with n have "10 \<le> n" "10 \<le> n div 10" "10 \<le> n div 10 div 10" "n div 10 div 10 div 10 < 10"
      by simp_all
    with 4 show ?thesis by (simp add: length_dec)
  qed
qed

lemma length_zfill_dec: "n < 100 \<Longrightarrow> length (zfill 2 (dec n)) = 2"
proof (cases "n < 10")
  case True
  then show ?thesis by (simp add: zfill_def length_dec)
next
  case False
  assume "n < 100"
  with False have "10 \<le> n" "n div 10 < 10" by simp_all
  then show ?thesis by (simp add: zfill_def length_dec)
qed

lemma foldl_dec: "foldl (\<lambda>a c. a * 10 + (of_char c - 48)) 0 (dec n) = n"
proof (induction n rule: dec.induct)
  case (1 n)
  show ?case
  proof (cases "n < 10")
    case True
    then show ?thesis by (subst dec.simps) simp
  next
    case False
    with "1" show ?thesis by (subst dec.simps) simp
  qed
qed

lemma foldl_zeros:
  "foldl (\<lambda>a c. a * 10 + (of_char c - 48)) (0::nat) (replicate k (CHR ''0'')) = 0"
  by (induction k) simp_all

lemma parse_nat_dec: "parse_nat (dec n) = Some n"
  by (simp add: parse_nat_def dec_decimal dec_nonempty foldl_dec)

lemma zfill_dec_decimal: "list_all isdecimal_char (zfill w (dec n))"
  using dec_decimal [of n] by (auto simp: zfill_def isdecimal_char_def list_all_iff)

lemma parse_nat_zfill_dec: "parse_nat (zfill w (dec n)) = Some n"
proof -
  have "zfill w (dec n) \<noteq> []" by (simp add: zfill_def dec_nonempty)
  moreover have "foldl (\<lambda>a c. a * 10 + (of_char c - 48)) 0 (zfill w (dec n)) = n"
    by (simp add: zfill_def foldl_zeros foldl_dec)
  ultimately show ?thesis by (simp add: parse_nat_def zfill_dec_decimal)
qed

lemma no_dash_decimal: "list_all isdecimal_char s \<Longrightarrow> CHR ''-'' \<notin> set s"
  by (auto simp: list_all_iff isdecimal_char_def)

lemma no_dash_dec: "CHR ''-'' \<notin> set (dec n)"
  by (rule no_dash_decimal) (rule dec_decimal)

lemma no_dash_zfill_dec: "CHR ''-'' \<notin> set (zfill w (dec n))"
  using no_dash_dec [of n] by (simp add: zfill_def)

lemma split_dash_nonempty: "split_dash s \<noteq> []"
  by (induction s) (auto split: list.splits)

lemma split_dash_word: "CHR ''-'' \<notin> set a \<Longrightarrow> split_dash a = [a]"
  by (induction a) auto

lemma split_dash_append:
  "CHR ''-'' \<notin> set a \<Longrightarrow> split_dash (a @ CHR ''-'' # rest) = a # split_dash rest"
  by (induction a) auto

lemma split_dash_strftime:
  "split_dash (strftime_ymd d)
     = [dec (year d), zfill 2 (dec (month d)), zfill 2 (dec (day d))]"
  by (simp add: strftime_ymd_def split_dash_append split_dash_word no_dash_dec no_dash_zfill_dec)

lemma validate_birthday_iff:
  assumes "valid_date (year d) (month d) (day d)"
  shows "validate_birthday d \<longleftrightarrow> 1000 \<le> year d"
proof -
  from assms have y: "1 \<le> year d" "year d \<le> 9999" and m: "month d < 100"
    and dd: "day d \<le> days_in_month (year d) (month d)"
    by (simp_all add: valid_date_def)
  have "days_in_month (year d) (month d) \<le> 31" by (simp add: days_in_month_def)
  with dd have dlt: "day d < 100" by simp
  have mk: "mk_date (year d) (month d) (day d) = Inr d"
    using assms by (simp add: mk_date_def valid_date_def)
  have "strptime_ymd (strftime_ymd d)
      = (if length (dec (year d)) = 4 then Inr d
         else Inl (ValueError ''time data does not match format''))"
    by (simp add: strptime_ymd_def split_dash_strftime length_zfill_dec m dlt parse_nat_dec
        parse_nat_zfill_dec mk)
  then show ?thesis
    using y by (simp add: validate_birthday_def length_dec_4)
qed

text \<open>
  C9. \<open>set_value\<close> of a \<open>Phone\<close> or of a \<open>Birthday\<close> with a value that fails the
  validation raises \<open>ValueError\<close> and leaves the field as it was. So a field that holds
  a valid value holds one after every \<open>set_value\<close>, whatever its argument, and a
  constructor that returns a field returns one with a valid value. The values that
  fail are, for a \<open>Phone\<close>, the strings that \<open>str.isdigit\<close> rejects and, for a
  \<open>Birthday\<close>, the dates before the year 1000 (\<open>validate_birthday_iff\<close>).
\<close>

theorem set_value_invalid_keeps_value:
  "(\<not> validate_phone v \<longrightarrow>
      Phone_set_value p v = (Inl (ValueError ''Invalid phone number''), p)) \<and>
   (\<not> validate_birthday d \<longrightarrow>
      Birthday_set_value f d = (Inl (ValueError ''Invalid birthday''), f)) \<and>
   (validate_phone (get_value p) \<longrightarrow> validate_phone (get_value (snd (Phone_set_value p v)))) \<and>
   (validate_birthday (get_value f) \<longrightarrow>
      validate_birthday (get_value (snd (Birthday_set_value f d)))) \<and>
   (\<forall>p'. Phone_init v = Inr p' \<longrightarrow> validate_phone (get_value p')) \<and>
   (\<forall>f'. Birthday_init d = Inr f' \<longrightarrow> validate_birthday (get_value f'))"
  by (auto simp: Phone_set_value_def Birthday_set_value_def Phone_init_def Birthday_init_def)

lemma validate_phone_123: "validate_phone ''123''"
  by code_simp

lemma validate_phone_12a: "\<not> validate_phone ''12a''"
  by code_simp

lemma validate_birthday_2000_01_31: "validate_birthday \<lparr>year = 2000, month = 1, day = 31\<rparr>"
  by code_simp

lemma validate_birthday_0999_01_01: "\<not> validate_birthday \<lparr>year = 999, month = 1, day = 1\<rparr>"
  by code_simp

lemma valid_date_0999_01_01: "valid_date 999 1 1"
  by (simp add: valid_date_def days_in_month_def)

theorem set_value_invalid_keeps_value_witness:
  "validate_phone ''123'' \<and> \<not> validate_phone ''12a'' \<and>
   Phone_set_value (Field ''123'') ''12a''
     = (Inl (ValueError ''Invalid phone number''), Field ''123'') \<and>
   validate_birthday \<lparr>year = 2000, month = 1, day = 31\<rparr> \<and>
   valid_date 999 1 1 \<and> \<not> validate_birthday \<lparr>year = 999, month = 1, day = 1\<rparr> \<and>
   Birthday_set_value (Field \<lparr>year = 2000, month = 1, day = 31\<rparr>)
       \<lparr>year = 999, month = 1, day = 1\<rparr>
     = (Inl (ValueError ''Invalid birthday''), Field \<lparr>year = 2000, month = 1, day = 31\<rparr>) \<and>
   Birthday_init \<lparr>year = 999, month = 1, day = 1\<rparr> = Inl (ValueError ''Invalid birthday'')"
  using set_value_invalid_keeps_value
    [of "''12a''" "Field ''123''" "\<lparr>year = 999, month = 1, day = 1\<rparr>"
      "Field \<lparr>year = 2000, month = 1, day = 31\<rparr>"]
    validate_phone_123 validate_phone_12a validate_birthday_2000_01_31
    validate_birthday_0999_01_01 valid_date_0999_01_01
  by (simp add: Birthday_init_def)

section \<open>Properties of the address book\<close>

text \<open>
  The loop of \<open>add_phone\<close> appends the strings before the first invalid one and
  raises at that one. The operations of the book keep the keys of the dict distinct.
\<close>

lemma add_phone_each_result:
  "add_phone_each r ps =
     (if list_all validate_phone ps then Inr () else Inl (ValueError ''Invalid phone number''),
      r\<lparr>phones := phones r @ map Field (takeWhile validate_phone ps)\<rparr>)"
proof (induction ps arbitrary: r)
  case Nil
  show ?case by simp
next
  case (Cons p ps)
  show ?case
    by (cases "validate_phone p") (simp_all add: add_phone_def Phone_init_def Cons.IH)
qed

lemma map_of_Some_key: "map_of al k = Some v \<Longrightarrow> k \<in> set (map fst al)"
  by (metis map_of_eq_None_iff option.distinct(1) set_map)

lemma dict_invar_empty_book: "dict_invar empty_book"
  by (simp add: dict_invar_def empty_book_def)

lemma dict_invar_add_record:
  "dict_invar b \<Longrightarrow> dict_invar (snd (add_record nm phs bd b))"
  by (auto simp: dict_invar_def add_record_def AList.distinct_update
      split: sum.splits option.splits prod.splits)

lemma dict_invar_edit_record:
  "dict_invar b \<Longrightarrow> dict_invar (snd (edit_record nm new_name new_phones b))"
  by (auto simp: dict_invar_def edit_record_def Let_def AList.distinct_update
      split: sum.splits option.splits prod.splits)

lemma dict_invar_delete_record:
  "dict_invar b \<Longrightarrow> dict_invar (snd (delete_record nm b))"
  by (auto simp: dict_invar_def delete_record_def AList.distinct_delete split: option.splits)

text \<open>
  C1, as the code has it. When the name is not a key, \<open>edit_record\<close> raises nothing:
  it returns the message \<open>"<name> Name not found "\<close>, whatever \<open>new_name\<close> and
  \<open>new_phones\<close> are, and the book is unchanged.
\<close>

theorem edit_record_absent_name:
  "map_of (data b) nm = None \<Longrightarrow>
     edit_record nm new_name new_phones b = (Inr (Some (nm @ '' Name not found '')), b)"
  by (simp add: edit_record_def)

theorem edit_record_absent_name_witness:
  "map_of (data empty_book) ''x'' = None \<and>
   edit_record ''x'' (Some ''y'') (Some [''1'']) empty_book
     = (Inr (Some ''x Name not found ''), empty_book)"
  using edit_record_absent_name [of empty_book "''x''" "Some ''y''" "Some [''1'']"]
  by (simp add: empty_book_def)

text \<open>
  C1 as the spec states it fails: on the empty book the call does not fail, it
  returns, and its result is a string.
\<close>

theorem edit_record_absent_returns_counterexample:
  "map_of (data empty_book) ''x'' = None \<and>
   fst (edit_record ''x'' None None empty_book) = Inr (Some ''x Name not found '')"
  by (simp add: edit_record_def empty_book_def)

text \<open>
  C5, as the code has it. For a record under the key \<open>nm\<close> and a non-empty
  \<open>new_name\<close>, \<open>edit_record\<close> returns \<open>None\<close>; the keys of the book and their order
  are as before, the key \<open>nm\<close> maps to the record with its name replaced by
  \<open>new_name\<close> and nothing else changed, and \<open>find_records_by_name new_name\<close> finds
  this record. An empty \<open>new_name\<close> is falsy: the call changes nothing.
\<close>

theorem edit_record_rename_keeps_key:
  "map_of (data b) nm = Some r \<Longrightarrow>
     (new_name \<noteq> [] \<longrightarrow>
        (\<exists>b'. edit_record nm (Some new_name) None b = (Inr None, b')
           \<and> map fst (data b') = map fst (data b)
           \<and> map_of (data b') nm = Some (r\<lparr>name := Field new_name\<rparr>)
           \<and> r\<lparr>name := Field new_name\<rparr> \<in> set (find_records_by_name new_name b')))
     \<and> edit_record nm (Some []) None b = (Inr None, b)"
proof -
  assume look: "map_of (data b) nm = Some r"
  let ?r = "r\<lparr>name := Field new_name\<rparr>"
  let ?b = "b\<lparr>data := AList.update nm ?r (data b)\<rparr>"
  from look have key: "nm \<in> set (map fst (data b))" by (rule map_of_Some_key)
  have keys: "map fst (data ?b) = map fst (data b)"
    using key by (simp add: AList.update_keys)
  have look': "map_of (data ?b) nm = Some ?r"
    by (simp add: AList.update_conv')
  then have "(nm, ?r) \<in> set (data ?b)" by (rule map_of_SomeD)
  then have "?r \<in> snd ` set (data ?b)" by force
  then have found: "?r \<in> set (find_records_by_name new_name ?b)"
    by (simp add: find_records_by_name_def)
  have renamed: "new_name \<noteq> [] \<longrightarrow> edit_record nm (Some new_name) None b = (Inr None, ?b)"
    using look by (simp add: edit_record_def set_value_def)
  have kept: "edit_record nm (Some []) None b = (Inr None, b)"
    using look by (simp add: edit_record_def AList.update_triv)
  from renamed keys look' found kept show ?thesis by blast
qed

theorem edit_record_rename_keeps_key_witness:
  "map_of (data two_book) ''Bob'' = Some bob \<and>
   fst (edit_record ''Bob'' (Some ''Bobby'') None two_book) = Inr None \<and>
   data (snd (edit_record ''Bob'' (Some ''Bobby'') None two_book))
     = [(''Ann'', ann), (''Bob'', bob\<lparr>name := Field ''Bobby''\<rparr>)] \<and>
   find_records_by_name ''Bobby'' (snd (edit_record ''Bob'' (Some ''Bobby'') None two_book))
     = [bob\<lparr>name := Field ''Bobby''\<rparr>]"
  using edit_record_rename_keeps_key [of two_book "''Bob''" bob "''Bobby''"]
  by (simp add: two_book_def ann_def bob_def edit_record_def find_records_by_name_def
      set_value_def)

text \<open>
  C5 as the spec states it fails for the empty \<open>new_name\<close>: the record under
  \<open>Bob\<close> keeps the name \<open>Bob\<close>.
\<close>

theorem edit_record_empty_name_counterexample:
  "map_of (data two_book) ''Bob'' = Some bob \<and>
   map_of (data (snd (edit_record ''Bob'' (Some '''') None two_book))) ''Bob'' = Some bob \<and>
   get_value (name bob) = ''Bob''"
  by (simp add: two_book_def ann_def bob_def edit_record_def)

lemma validate_phone_1: "validate_phone ''1''"
  by code_simp

lemma validate_phone_2x: "\<not> validate_phone ''2x''"
  by code_simp

lemma validate_phone_3: "validate_phone ''3''"
  by code_simp

text \<open>
  C6. For a record under the key \<open>nm\<close> and a list \<open>ps\<close> with a string that fails the
  phone validation, \<open>edit_record\<close> raises \<open>ValueError\<close>, and the record that the key
  maps to afterwards holds as its phones exactly the strings of \<open>ps\<close> before the
  first invalid one: the phones it had are gone. The keys and the birthday are as
  before.
\<close>

theorem edit_record_invalid_phone_keeps_prefix:
  "map_of (data b) nm = Some r \<Longrightarrow> \<exists>p\<in>set ps. \<not> validate_phone p \<Longrightarrow>
     \<exists>b' r'. edit_record nm new_name (Some ps) b = (Inl (ValueError ''Invalid phone number''), b')
       \<and> map fst (data b') = map fst (data b)
       \<and> map_of (data b') nm = Some r'
       \<and> phones r' = map Field (takeWhile validate_phone ps)
       \<and> birthday r' = birthday r"
proof -
  assume look: "map_of (data b) nm = Some r" and bad: "\<exists>p\<in>set ps. \<not> validate_phone p"
  from bad have ne: "ps \<noteq> []" by auto
  from bad have nall: "\<not> list_all validate_phone ps" by (simp add: list_all_iff)
  from look have key: "nm \<in> set (map fst (data b))" by (rule map_of_Some_key)
  show ?thesis
    using look ne nall key
    by (auto simp: edit_record_def add_phone_each_result Let_def AList.update_keys
        AList.update_conv' split: option.splits)
qed

theorem edit_record_invalid_phone_keeps_prefix_witness:
  "map_of (data two_book) ''Bob'' = Some bob \<and> \<not> validate_phone ''2x'' \<and>
   phones bob = [Field ''111'', Field ''222''] \<and>
   edit_record ''Bob'' None (Some [''1'', ''2x'', ''3'']) two_book
     = (Inl (ValueError ''Invalid phone number''),
        two_book\<lparr>data := [(''Ann'', ann), (''Bob'', bob\<lparr>phones := [Field ''1'']\<rparr>)]\<rparr>)"
  using edit_record_invalid_phone_keeps_prefix
    [of two_book "''Bob''" bob "[''1'', ''2x'', ''3'']" None]
    validate_phone_1 validate_phone_2x validate_phone_3
  by (auto simp: two_book_def bob_def ann_def edit_record_def add_phone_each_result)

text \<open>
  C10. When a string of \<open>phones\<close> fails the phone validation, \<open>add_record\<close> raises
  \<open>ValueError\<close> and the book is unchanged: the record is built and filled before it is
  stored, so nothing is stored, and an entry under the same name stays as it was.
\<close>

theorem add_record_invalid_phone_unchanged:
  "\<exists>p\<in>set phs. \<not> validate_phone p \<Longrightarrow>
     \<exists>msg. add_record nm (Some phs) bd b = (Inl (ValueError msg), b)"
proof -
  assume bad: "\<exists>p\<in>set phs. \<not> validate_phone p"
  then have ne: "phs \<noteq> []" by auto
  from bad have nall: "\<not> list_all validate_phone phs" by (simp add: list_all_iff)
  show ?thesis
  proof (cases "Record_init nm None bd")
    case (Inl e)
    then have "e = ValueError ''Invalid birthday''"
      by (auto simp: Record_init_def Birthday_init_def split: option.splits if_splits)
    with Inl show ?thesis by (simp add: add_record_def)
  next
    case (Inr r)
    with ne nall show ?thesis
      by (simp add: add_record_def add_phone_each_result)
  qed
qed

theorem add_record_invalid_phone_unchanged_witness:
  "\<not> validate_phone ''2x'' \<and> map_of (data two_book) ''Bob'' = Some bob \<and>
   add_record ''Bob'' (Some [''1'', ''2x'']) None two_book
     = (Inl (ValueError ''Invalid phone number''), two_book)"
  using add_record_invalid_phone_unchanged [of "[''1'', ''2x'']" "''Bob''" None two_book]
    validate_phone_1 validate_phone_2x
  by (auto simp: two_book_def add_record_def Record_init_def Name_init_def add_phone_each_result)

section \<open>Properties of the generator\<close>

lemma map_of_nth_key:
  "distinct (map fst xs) \<Longrightarrow> j < length xs \<Longrightarrow> map_of xs (fst (xs ! j)) = Some (snd (xs ! j))"
  by (simp add: nth_mem)

lemma consume_from_yield:
  "pc g = AtYield \<Longrightarrow> iter_keys b = map fst (data b) \<Longrightarrow> distinct (map fst (data b)) \<Longrightarrow>
   iter_index b < length (data b) \<Longrightarrow>
     consume g b
       = (Inr (map snd (drop (Suc (iter_index b)) (data b))), b\<lparr>iter_index := length (data b)\<rparr>)"
proof (induction "length (data b) - iter_index b" arbitrary: g b)
  case 0
  then show ?case by simp
next
  case (Suc n)
  let ?i = "Suc (iter_index b)"
  let ?b = "b\<lparr>iter_index := ?i\<rparr>"
  show ?case
  proof (cases "?i < length (data b)")
    case False
    with Suc.prems have last: "?i = length (data b)" by simp
    have "gen_next g b = (Inr None, g\<lparr>pc := Finished\<rparr>, ?b)"
      using Suc.prems last by (simp add: gen_next_def loop_head_def)
    then show ?thesis
      using last by (subst consume.simps) simp
  next
    case True
    let ?g = "g\<lparr>pc := AtYield\<rparr>"
    have look: "map_of (data b) (fst (data b ! ?i)) = Some (snd (data b ! ?i))"
      using Suc.prems(3) True by (rule map_of_nth_key)
    have step: "gen_next g b = (Inr (Some (snd (data b ! ?i))), ?g, ?b)"
      using Suc.prems True by (simp add: gen_next_def loop_head_def look)
    have "n = length (data ?b) - iter_index ?b"
      using Suc.hyps(2) by simp
    moreover have "pc ?g = AtYield" by simp
    moreover have "iter_keys ?b = map fst (data ?b)" using Suc.prems(2) by simp
    moreover have "distinct (map fst (data ?b))" using Suc.prems(3) by simp
    moreover have "iter_index ?b < length (data ?b)" using True by simp
    ultimately have rest:
      "consume ?g ?b
         = (Inr (map snd (drop (Suc (iter_index ?b)) (data ?b))), ?b\<lparr>iter_index := length (data ?b)\<rparr>)"
      by (rule Suc.hyps(1))
    have "drop ?i (data b) = data b ! ?i # drop (Suc ?i) (data b)"
      using True by (simp add: Cons_nth_drop_Suc)
    with step rest show ?thesis
      by (subst consume.simps) simp
  qed
qed

lemma consume_iterator:
  assumes "distinct (map fst (data b))"
  shows "consume (iterator n) b
       = (Inr (map snd (data b)), b\<lparr>iter_index := length (data b), iter_keys := map fst (data b)\<rparr>)"
proof (cases "data b")
  case Nil
  then have "gen_next (iterator n) b
      = (Inr None, iterator n\<lparr>pc := Finished\<rparr>, b\<lparr>iter_index := 0, iter_keys := []\<rparr>)"
    by (simp add: gen_next_def loop_head_def iterator_def)
  then show ?thesis
    using Nil by (subst consume.simps) simp
next
  case (Cons kv rest)
  let ?b = "b\<lparr>iter_index := 0, iter_keys := map fst (data b)\<rparr>"
  let ?g = "iterator n\<lparr>pc := AtYield\<rparr>"
  have look: "map_of (data b) (fst (data b ! 0)) = Some (snd (data b ! 0))"
    using assms Cons by (intro map_of_nth_key) simp_all
  have step: "gen_next (iterator n) b = (Inr (Some (snd kv)), ?g, ?b)"
    using Cons by (simp add: gen_next_def loop_head_def iterator_def look)
  have "consume ?g ?b
      = (Inr (map snd (drop (Suc (iter_index ?b)) (data ?b))), ?b\<lparr>iter_index := length (data ?b)\<rparr>)"
    using assms Cons by (intro consume_from_yield) simp_all
  with step show ?thesis
    using Cons by (subst consume.simps) simp
qed

text \<open>
  C7. On a book whose dict has distinct keys, as every Python dict has, the generator
  of \<open>iterator n\<close> consumed to its end yields the records of the book, each once, in
  the order of the dict, and then stops (\<open>consume\<close> is a total function). It leaves
  the dict as it was, and the generator of a second call \<open>iterator m\<close>, consumed on
  the book the first has left, yields the same records. The page sizes \<open>n\<close> and \<open>m\<close>
  are arbitrary: they change nothing.
\<close>

theorem iterator_yields_all_records:
  "dict_invar b \<Longrightarrow>
     \<exists>b'. consume (iterator n) b = (Inr (map snd (data b)), b')
       \<and> data b' = data b
       \<and> fst (consume (iterator m) b') = Inr (map snd (data b))"
proof -
  assume "dict_invar b"
  then have d: "distinct (map fst (data b))" by (simp add: dict_invar_def)
  let ?b = "b\<lparr>iter_index := length (data b), iter_keys := map fst (data b)\<rparr>"
  have first: "consume (iterator n) b = (Inr (map snd (data b)), ?b)"
    using d by (rule consume_iterator)
  have "distinct (map fst (data ?b))" using d by simp
  then have "consume (iterator m) ?b
      = (Inr (map snd (data ?b)), ?b\<lparr>iter_index := length (data ?b), iter_keys := map fst (data ?b)\<rparr>)"
    by (rule consume_iterator)
  then have second: "fst (consume (iterator m) ?b) = Inr (map snd (data b))" by simp
  from first second show ?thesis by simp
qed

theorem iterator_yields_all_records_witness:
  "dict_invar two_book \<and>
   fst (consume (iterator 2) two_book) = Inr [ann, bob] \<and>
   data (snd (consume (iterator 2) two_book)) = data two_book \<and>
   fst (consume (iterator 7) (snd (consume (iterator 2) two_book))) = Inr [ann, bob]"
  using iterator_yields_all_records [of two_book 2 7]
  by (auto simp: dict_invar_def two_book_def)

section \<open>Properties of the persistence\<close>

text \<open>
  C8. Whatever serialisation \<open>pickle\<close> is, provided that loading what it has dumped
  gives the dumped dict back: after \<open>save_to_file\<close> of a book to a file,
  \<open>load_from_file\<close> of this file into any book, a fresh one included, raises nothing,
  prints nothing and makes the dict of that book the dict of the saved one: the same
  keys in the same order, each with the same record.
\<close>

theorem save_then_load:
  "(\<And>d. loads (dumps d) = Inr d) \<Longrightarrow>
     load_from_file loads filename fresh (save_to_file dumps filename b fs)
       = (Inr (), fresh\<lparr>data := data b\<rparr>, [])"
  by (simp add: load_from_file_def save_to_file_def)

theorem save_then_load_witness:
  "load_from_file Inr ''book.bin'' empty_book
       (save_to_file (\<lambda>d. d) ''book.bin'' two_book Map.empty)
     = (Inr (), empty_book\<lparr>data := [(''Ann'', ann), (''Bob'', bob)]\<rparr>, [])"
  using save_then_load [of Inr "\<lambda>d. d" "''book.bin''" empty_book two_book Map.empty]
  by (simp add: two_book_def)

section \<open>Properties of \<open>days_to_birthday\<close>\<close>

text \<open>
  The ordinal of a date grows with the date: within a year, and from any day of a
  year to any day of the next. So the difference that \<open>days_to_birthday\<close> returns
  is never negative.
\<close>


lemma div_next:
  fixes k c :: int
  assumes "0 < c"
  shows "(k + 1) div c = k div c + (if (k + 1) mod c = 0 then 1 else 0)"
proof -
  define q r where "q = k div c" and "r = k mod c"
  have k: "k = c * q + r" and r: "0 \<le> r" "r < c"
    using assms by (simp_all add: q_def r_def)
  show ?thesis
  proof (cases "r + 1 = c")
    case True
    then have eq: "k + 1 = c * (q + 1) + 0" using k by (simp add: algebra_simps)
    have "(k + 1) div c = q + 1"
      using eq assms by (intro int_div_pos_eq [of _ c "q + 1" 0]) simp_all
    moreover have "(k + 1) mod c = 0"
      using eq assms by (intro int_mod_pos_eq [of _ c "q + 1" 0]) simp_all
    ultimately show ?thesis by (simp add: q_def)
  next
    case False
    with r have lt: "r + 1 < c" by simp
    have eq: "k + 1 = c * q + (r + 1)" using k by simp
    have "(k + 1) div c = q"
      using eq r lt by (intro int_div_pos_eq [of _ c q "r + 1"]) simp_all
    moreover have "(k + 1) mod c = r + 1"
      using eq r lt by (intro int_mod_pos_eq [of _ c q "r + 1"]) simp_all
    ultimately show ?thesis using r by (simp add: q_def)
  qed
qed

lemma int_mod_nat:
  "int y mod 4 = 0 \<longleftrightarrow> y mod 4 = 0"
  "int y mod 100 = 0 \<longleftrightarrow> y mod 100 = 0"
  "int y mod 400 = 0 \<longleftrightarrow> y mod 400 = 0"
  by presburger+

lemma days_before_year_Suc:
  "days_before_year (Suc y) = days_before_year y + (if is_leap y then 366 else 365)"
proof -
  have "int (Suc y) - 1 = (int y - 1) + 1" by simp
  then show ?thesis
    unfolding days_before_year_def is_leap_def Let_def
    by (simp only: div_next [of 4 "int y - 1"] div_next [of 100 "int y - 1"] div_next [of 400 "int y - 1"])
       (use int_mod_nat [of y] in \<open>auto simp: algebra_simps\<close>)
qed


lemma mk_date_Inr_iff:
  "mk_date y m d = Inr x \<longleftrightarrow> valid_date y m d \<and> x = \<lparr>year = y, month = m, day = d\<rparr>"
  by (auto simp: mk_date_def valid_date_def)

lemma upt_1_13: "[Suc 0..<13] = [1, 2, 3, 4, 5, 6, 7, 8, 9, 10, 11, 12::nat]"
  by code_simp

lemma days_before_month_13: "days_before_month y 13 = (if is_leap y then 366 else 365)"
  by (simp add: days_before_month_def upt_1_13 days_in_month_def)

lemma days_before_month_Suc:
  "1 \<le> m \<Longrightarrow> days_before_month y (Suc m) = days_before_month y m + days_in_month y m"
  by (simp add: days_before_month_def)

lemma days_before_month_mono: "m \<le> m' \<Longrightarrow> days_before_month y m \<le> days_before_month y m'"
proof (induction m' rule: dec_induct)
  case base
  show ?case by simp
next
  case (step k)
  show ?case
  proof (cases "1 \<le> k")
    case True
    with step show ?thesis by (simp add: days_before_month_Suc)
  next
    case False
    then show ?thesis using step by (simp add: days_before_month_def)
  qed
qed

lemma days_before_month_next:
  "1 \<le> m \<Longrightarrow> m < m' \<Longrightarrow> days_before_month y m + days_in_month y m \<le> days_before_month y m'"
  using days_before_month_mono [of "Suc m" m' y] by (simp add: days_before_month_Suc)

text \<open>A date of a year is at most the last day of the year.\<close>

lemma day_of_year_le:
  assumes "valid_date y m d"
  shows "days_before_month y m + d \<le> (if is_leap y then 366 else 365)"
proof -
  from assms have m: "1 \<le> m" "m < 13" and d: "d \<le> days_in_month y m"
    by (simp_all add: valid_date_def)
  from m have "days_before_month y m + days_in_month y m \<le> days_before_month y 13"
    by (rule days_before_month_next)
  with d show ?thesis by (simp add: days_before_month_13)
qed

lemma toordinal_same_year:
  assumes "valid_date (year t) (month t) (day t)" and "1 \<le> m'" and "1 \<le> d'"
    and "\<not> date_less \<lparr>year = year t, month = m', day = d'\<rparr> t"
  shows "toordinal t \<le> toordinal \<lparr>year = year t, month = m', day = d'\<rparr>"
proof (cases "month t = m'")
  case True
  with assms show ?thesis by (simp add: toordinal_def date_less_def)
next
  case False
  with assms have lt: "month t < m'" by (simp add: date_less_def)
  from assms have "1 \<le> month t" "day t \<le> days_in_month (year t) (month t)"
    by (simp_all add: valid_date_def)
  with lt have "days_before_month (year t) (month t) + day t \<le> days_before_month (year t) m'"
    using days_before_month_next [of "month t" m' "year t"] by simp
  then show ?thesis by (simp add: toordinal_def)
qed

lemma toordinal_next_year:
  assumes "valid_date (year t) (month t) (day t)" and "1 \<le> d'"
  shows "toordinal t \<le> toordinal \<lparr>year = Suc (year t), month = m', day = d'\<rparr>"
proof -
  have "int (days_before_month (year t) (month t)) + int (day t)
      \<le> (if is_leap (year t) then 366 else 365)"
    using day_of_year_le [OF assms(1)] by (simp split: if_splits)
  then show ?thesis
    using assms(2) by (simp add: toordinal_def days_before_year_Suc split: if_splits)
qed

lemma days_to_birthday_None_iff: "days_to_birthday today r = Inr None \<longleftrightarrow> birthday r = None"
  by (auto simp: days_to_birthday_def split: option.splits sum.splits)

lemma days_to_birthday_nonneg:
  assumes "valid_date (year today) (month today) (day today)"
    and "days_to_birthday today r = Inr (Some n)"
  shows "0 \<le> n"
proof -
  obtain b where b: "birthday r = Some b"
    using assms(2) by (cases "birthday r") (simp_all add: days_to_birthday_def)
  let ?y = "year today" and ?m = "get_month b" and ?d = "get_day b"
  let ?nb = "\<lparr>year = ?y, month = ?m, day = ?d\<rparr>"
  from assms(2) b have v: "valid_date ?y ?m ?d"
    by (auto simp: days_to_birthday_def mk_date_Inr_iff split: sum.splits)
  then have nb: "mk_date ?y ?m ?d = Inr ?nb" by (simp add: mk_date_Inr_iff)
  from v have pos: "1 \<le> ?m" "1 \<le> ?d" by (simp_all add: valid_date_def)
  show ?thesis
  proof (cases "date_less ?nb today")
    case True
    with assms(2) b nb have "n = days_between \<lparr>year = Suc ?y, month = ?m, day = ?d\<rparr> today"
      by (auto simp: days_to_birthday_def replace_year_def mk_date_Inr_iff split: sum.splits)
    moreover have "toordinal today \<le> toordinal \<lparr>year = Suc ?y, month = ?m, day = ?d\<rparr>"
      using assms(1) pos(2) by (rule toordinal_next_year)
    ultimately show ?thesis by (simp add: days_between_def)
  next
    case False
    with assms(2) b nb have "n = days_between ?nb today"
      by (simp add: days_to_birthday_def)
    moreover have "toordinal today \<le> toordinal ?nb"
      using assms(1) pos False by (rule toordinal_same_year)
    ultimately show ?thesis by (simp add: days_between_def)
  qed
qed

lemma days_to_birthday_today:
  assumes "valid_date (year today) (month today) (day today)"
    and "birthday r = Some b" and "get_month b = month today" and "get_day b = day today"
  shows "days_to_birthday today r = Inr (Some 0)"
proof -
  have "mk_date (year today) (month today) (day today) = Inr today"
    using assms(1) by (simp add: mk_date_Inr_iff)
  then show ?thesis
    using assms(2-4) by (simp add: days_to_birthday_def date_less_def days_between_def)
qed

text \<open>A month and day other than February 29 name a date in every year.\<close>

lemma valid_date_any_year:
  assumes "valid_date y0 m d" and "m \<noteq> 2 \<or> d \<noteq> 29" and "1 \<le> y" and "y \<le> 9999"
  shows "valid_date y m d"
proof (cases "m = 2")
  case False
  then have "days_in_month y m = days_in_month y0 m" by (simp add: days_in_month_def)
  with assms show ?thesis by (simp add: valid_date_def)
next
  case True
  with assms(1) have "d \<le> 29" by (simp add: valid_date_def days_in_month_def split: if_splits)
  with True assms(2) have "d \<le> 28" by simp
  moreover have "28 \<le> days_in_month y 2" by (simp add: days_in_month_def)
  ultimately have "d \<le> days_in_month y m" using True by simp
  with assms True show ?thesis by (simp add: valid_date_def)
qed

lemma days_to_birthday_returns:
  assumes "valid_date (year today) (month today) (day today)"
    and "birthday r = Some b"
    and "valid_date y0 (get_month b) (get_day b)"
    and "get_month b \<noteq> 2 \<or> get_day b \<noteq> 29"
    and "year today < 9999"
  shows "\<exists>n. days_to_birthday today r = Inr (Some n) \<and> 0 \<le> n"
proof -
  let ?y = "year today" and ?m = "get_month b" and ?d = "get_day b"
  from assms(1) have y: "1 \<le> ?y" by (simp add: valid_date_def)
  have "valid_date ?y ?m ?d"
    using assms(3,4) y assms(5) by (auto intro: valid_date_any_year [of y0])
  then have nb: "mk_date ?y ?m ?d = Inr \<lparr>year = ?y, month = ?m, day = ?d\<rparr>"
    by (simp add: mk_date_Inr_iff)
  have "valid_date (Suc ?y) ?m ?d"
    using assms(3,4) assms(5) by (auto intro: valid_date_any_year [of y0])
  then have nb': "mk_date (Suc ?y) ?m ?d = Inr \<lparr>year = Suc ?y, month = ?m, day = ?d\<rparr>"
    by (simp add: mk_date_Inr_iff)
  have "\<exists>n. days_to_birthday today r = Inr (Some n)"
    by (simp add: days_to_birthday_def replace_year_def assms(2) nb nb')
  then show ?thesis using days_to_birthday_nonneg [OF assms(1)] by blast
qed

lemma mk_date_feb29:
  "1 \<le> y \<Longrightarrow> y \<le> 9999 \<Longrightarrow> \<not> is_leap y \<Longrightarrow>
     mk_date y 2 29 = Inl (ValueError ''day is out of range for month'')"
  by (simp add: mk_date_def days_in_month_def)

lemma is_leap_Suc: "is_leap y \<Longrightarrow> \<not> is_leap (Suc y)"
  unfolding is_leap_def by presburger

lemma is_leap_bound: "is_leap y \<Longrightarrow> y \<le> 9999 \<Longrightarrow> Suc y \<le> 9999"
  unfolding is_leap_def by presburger

text \<open>
  C4. For a record whose birthday is a February 29, \<open>days_to_birthday\<close> raises
  \<open>ValueError\<close> instead of returning a number when the year of today is not a leap
  year (the first date construction raises), and when it is one and February 29 is
  before today (the replacement of the year raises, the next year being no leap year).
\<close>

theorem days_to_birthday_feb29_raises:
  "valid_date (year today) (month today) (day today) \<Longrightarrow> birthday r = Some b \<Longrightarrow>
   get_month b = 2 \<Longrightarrow> get_day b = 29 \<Longrightarrow>
   \<not> is_leap (year today) \<or> date_less \<lparr>year = year today, month = 2, day = 29\<rparr> today \<Longrightarrow>
     days_to_birthday today r = Inl (ValueError ''day is out of range for month'')"
proof -
  assume v: "valid_date (year today) (month today) (day today)"
    and b: "birthday r = Some b" "get_month b = 2" "get_day b = 29"
    and c: "\<not> is_leap (year today) \<or> date_less \<lparr>year = year today, month = 2, day = 29\<rparr> today"
  from v have y: "1 \<le> year today" "year today \<le> 9999" by (simp_all add: valid_date_def)
  show ?thesis
  proof (cases "is_leap (year today)")
    case False
    with y b show ?thesis by (simp add: days_to_birthday_def mk_date_feb29)
  next
    case True
    with c have passed: "date_less \<lparr>year = year today, month = 2, day = 29\<rparr> today" by simp
    from True y have first:
      "mk_date (year today) 2 29 = Inr \<lparr>year = year today, month = 2, day = 29\<rparr>"
      by (simp add: mk_date_Inr_iff valid_date_def days_in_month_def)
    from True y have
      "mk_date (Suc (year today)) 2 29 = Inl (ValueError ''day is out of range for month'')"
      by (intro mk_date_feb29 is_leap_Suc is_leap_bound) simp_all
    with first passed b show ?thesis
      by (simp add: days_to_birthday_def replace_year_def)
  qed
qed

theorem days_to_birthday_feb29_raises_witness:
  "valid_date 2023 3 15 \<and> days_in_month 2023 2 = 28 \<and>
   days_to_birthday \<lparr>year = 2023, month = 3, day = 15\<rparr> leap_child
     = Inl (ValueError ''day is out of range for month'') \<and>
   valid_date 2024 3 15 \<and> days_in_month 2024 2 = 29 \<and>
   date_less \<lparr>year = 2024, month = 2, day = 29\<rparr> \<lparr>year = 2024, month = 3, day = 15\<rparr> \<and>
   days_to_birthday \<lparr>year = 2024, month = 3, day = 15\<rparr> leap_child
     = Inl (ValueError ''day is out of range for month'')"
  using days_to_birthday_feb29_raises
      [of "\<lparr>year = 2023, month = 3, day = 15\<rparr>" leap_child
        "Field \<lparr>year = 2000, month = 2, day = 29\<rparr>"]
    days_to_birthday_feb29_raises
      [of "\<lparr>year = 2024, month = 3, day = 15\<rparr>" leap_child
        "Field \<lparr>year = 2000, month = 2, day = 29\<rparr>"]
  by (simp add: leap_child_def valid_date_def days_in_month_def is_leap_def get_month_def
      get_day_def date_less_def)

text \<open>
  C3 at a failing input. The result is \<open>None\<close> exactly when the record has no birthday
  (\<open>days_to_birthday_None_iff\<close>); a number that is returned is never negative
  (\<open>days_to_birthday_nonneg\<close>), it is 0 on the birthday (\<open>days_to_birthday_today\<close>),
  and a birthday other than a February 29 gets one when the year of today is before
  9999 (\<open>days_to_birthday_returns\<close>).
  But for the birthday 2000-02-29, on 2023-06-15, no number is returned:
  \<open>datetime(2023, 2, 29)\<close> raises \<open>ValueError\<close>.
\<close>

theorem days_to_birthday_leap_child_2023:
  "days_to_birthday \<lparr>year = 2023, month = 6, day = 15\<rparr> leap_child
     = Inl (ValueError ''day is out of range for month'')"
  by (simp add: days_to_birthday_def leap_child_def mk_date_def days_in_month_def is_leap_def
      get_month_def get_day_def)

end
